theory Spec2Isabelle
  imports Main "HOL-Library.AList" "HOL-Library.Char_ord" "HOL-Library.List_Lexorder"
    "HOL-Library.Multiset" "HOL-Library.Product_Lexorder" "HOL-Library.Sublist"
begin

section \<open>Python values, exceptions and the store of list objects\<close>

text \<open>
  The exceptions the two modules can raise. The specification's error kinds are names for
  them: NotFound is \<open>KeyError\<close>, FrozenWriteRejected is \<open>TypeError\<close> (raised with the
  message "Frozen ... does not support assignment"), LayerNotDeclared is \<open>ValueError\<close>
  (what \<open>list.remove\<close> raises for an absent element). \<open>IndexError\<close> is what indexing
  a list out of range raises, \<open>AttributeError\<close> what a missing attribute or method raises.

  A method that can raise returns a value of \<open>pyerror + 'a\<close>: \<open>Inl\<close> the exception, \<open>Inr\<close>
  the result together with the objects as the call leaves them. What a call has changed
  before it raises is not kept in the \<open>Inl\<close> case.
\<close>

datatype pyerror = KeyError | TypeError | ValueError | IndexError | AttributeError

text \<open>
  Configuration values: a scalar, or a \<open>dict\<close> from names to values. A Python dict keeps
  its keys in insertion order, so it is an association list.
\<close>

datatype scalar = PyNone | PyBool bool | PyInt int | PyStr string

datatype pyvalue = Scalar scalar | Dict "(string \<times> pyvalue) list"

type_synonym layer = "string option"
type_synonym source = "string option"
type_synonym entry = "source \<times> scalar"

text \<open>
  \<open>_layers\<close> is a mutable list object that several trees can share: every \<open>_layers\<close>
  attribute is an address into a store of list objects. \<open>alloc\<close> creates a new list object.
\<close>

type_synonym addr = nat
type_synonym heap = "string list list"

definition alloc :: "heap \<Rightarrow> string list \<Rightarrow> heap \<times> addr" where
  "alloc h xs = (h @ [xs], length h)"

text \<open>Truth value of an optional string: \<open>None\<close> and the empty string are false.\<close>

definition truthy :: "string option \<Rightarrow> bool" where
  "truthy s = (case s of None \<Rightarrow> False | Some l \<Rightarrow> l \<noteq> [])"

section \<open>ConfigNode\<close>

record ConfigNode =
  n_layers :: addr
  n_values :: "(string \<times> entry) list"
  n_frozen :: bool

text \<open>\<open>ConfigNode.__init__\<close>: an absent or empty \<open>layers\<close> gives a new list \<open>['base']\<close>.\<close>

definition ConfigNode_init :: "heap \<Rightarrow> addr option \<Rightarrow> heap \<times> ConfigNode" where
  "ConfigNode_init h layers =
     (if (case layers of None \<Rightarrow> True | Some a \<Rightarrow> h ! a = [])
      then (let (h', b) = alloc h [''base'']
            in (h', \<lparr>n_layers = b, n_values = [], n_frozen = False\<rparr>))
      else (h, \<lparr>n_layers = the layers, n_values = [], n_frozen = False\<rparr>))"


text \<open>
  The loop of \<open>get_value_with_source\<close> over \<open>reversed(self._layers)\<close>: the first layer
  with a stored value is returned; running off the end raises \<open>KeyError\<close>.
\<close>

fun scan_layers :: "(string \<times> entry) list \<Rightarrow> string list \<Rightarrow> pyerror + entry" where
  "scan_layers vs [] = Inl KeyError"
| "scan_layers vs (l # ls) =
     (case map_of vs l of Some p \<Rightarrow> Inr p | None \<Rightarrow> scan_layers vs ls)"

definition get_value_with_source :: "heap \<Rightarrow> ConfigNode \<Rightarrow> layer \<Rightarrow> pyerror + entry" where
  "get_value_with_source h n layer =
     (if truthy layer
      then (case map_of (n_values n) (the layer) of None \<Rightarrow> Inl KeyError | Some p \<Rightarrow> Inr p)
      else scan_layers (n_values n) (rev (h ! n_layers n)))"

definition get_value :: "heap \<Rightarrow> ConfigNode \<Rightarrow> layer \<Rightarrow> pyerror + scalar" where
  "get_value h n layer =
     (case get_value_with_source h n layer of Inl e \<Rightarrow> Inl e | Inr p \<Rightarrow> Inr (snd p))"

text \<open>One record of \<open>metadata()\<close>.\<close>

record metadata_record =
  md_layer :: string
  md_value :: scalar
  md_source :: source
  md_default :: bool

text \<open>
  The loop of \<open>ConfigNode.metadata\<close> over the declared layers; \<open>lst\<close> is
  \<open>self._layers[-1]\<close>, which exists whenever the loop body runs.
\<close>

fun metadata_loop :: "(string \<times> entry) list \<Rightarrow> string \<Rightarrow> string list \<Rightarrow> metadata_record list" where
  "metadata_loop vs lst [] = []"
| "metadata_loop vs lst (l # ls) =
     (case map_of vs l of
        None \<Rightarrow> metadata_loop vs lst ls
      | Some p \<Rightarrow> \<lparr>md_layer = l, md_value = snd p, md_source = fst p, md_default = (l = lst)\<rparr>
                  # metadata_loop vs lst ls)"

definition node_metadata :: "heap \<Rightarrow> ConfigNode \<Rightarrow> metadata_record list" where
  "node_metadata h n =
     (let ls = h ! n_layers n in if ls = [] then [] else metadata_loop (n_values n) (last ls) ls)"

text \<open>
  \<open>set_value\<close>: refused on a frozen node; without a layer the value goes to
  \<open>self._layers[-1]\<close>, which raises \<open>IndexError\<close> on an empty list.
\<close>

definition set_value :: "heap \<Rightarrow> ConfigNode \<Rightarrow> scalar \<Rightarrow> layer \<Rightarrow> source \<Rightarrow> pyerror + ConfigNode" where
  "set_value h n v layer src =
     (if n_frozen n then Inl TypeError
      else if \<not> truthy layer
      then (if h ! n_layers n = [] then Inl IndexError
            else Inr (n\<lparr>n_values := AList.update (last (h ! n_layers n)) (src, v) (n_values n)\<rparr>))
      else Inr (n\<lparr>n_values := AList.update (the layer) (src, v) (n_values n)\<rparr>))"

text \<open>\<open>reset_layer\<close> is \<open>del self._values[layer]\<close>, a \<open>KeyError\<close> when nothing is stored.\<close>

definition node_reset_layer :: "ConfigNode \<Rightarrow> string \<Rightarrow> pyerror + ConfigNode" where
  "node_reset_layer n l =
     (case map_of (n_values n) l of
        None \<Rightarrow> Inl KeyError
      | Some _ \<Rightarrow> Inr (n\<lparr>n_values := AList.delete l (n_values n)\<rparr>))"

text \<open>
  \<open>list.remove\<close> on the list object at an address: removes the first occurrence, raises
  \<open>ValueError\<close> when there is none.
\<close>

definition list_remove :: "heap \<Rightarrow> addr \<Rightarrow> string \<Rightarrow> pyerror + heap" where
  "list_remove h a l = (if l \<in> set (h ! a) then Inr (h[a := remove1 l (h ! a)]) else Inl ValueError)"

definition node_drop_layer :: "heap \<Rightarrow> ConfigNode \<Rightarrow> string \<Rightarrow> pyerror + heap \<times> ConfigNode" where
  "node_drop_layer h n l =
     (case node_reset_layer n l of
        Inl e \<Rightarrow> Inl e
      | Inr n' \<Rightarrow> (case list_remove h (n_layers n') l of Inl e \<Rightarrow> Inl e | Inr h' \<Rightarrow> Inr (h', n')))"

section \<open>ConfigTree\<close>

text \<open>
  A child of a tree is a \<open>ConfigTree\<close> or a \<open>ConfigNode\<close>; \<open>_children\<close> is a dict, kept in
  insertion order. Methods that both classes have (\<open>freeze\<close>, \<open>drop_layer\<close>) are called
  on a child without looking at its class, so they are functions on \<open>config\<close>; a method of
  \<open>ConfigTree\<close> alone raises \<open>AttributeError\<close> on a node.
\<close>

datatype config =
    CTree (t_layers: addr) (t_children: "(string \<times> config) list") (t_frozen: bool)
  | CNode ConfigNode

datatype read_result = Value scalar | Subtree config

text \<open>\<open>ConfigTree(layers=...)\<close> without data; \<open>list(xs)\<close> copies a list object.\<close>

definition new_tree :: "heap \<Rightarrow> addr option \<Rightarrow> heap \<times> config" where
  "new_tree h layers =
     (if (case layers of None \<Rightarrow> True | Some a \<Rightarrow> h ! a = [])
      then (let (h', b) = alloc h [''base''] in (h', CTree b [] False))
      else (h, CTree (the layers) [] False))"

definition list_copy :: "heap \<Rightarrow> addr \<Rightarrow> heap \<times> addr" where
  "list_copy h a = alloc h (h ! a)"


text \<open>\<open>__contains__\<close> and \<open>__len__\<close> look at \<open>_children\<close> only.\<close>

fun contains :: "config \<Rightarrow> string \<Rightarrow> bool" where
  "contains (CTree a cs f) name = (map_of cs name \<noteq> None)"
| "contains (CNode n) name = False"

fun len :: "config \<Rightarrow> nat" where
  "len (CTree a cs f) = length cs"
| "len (CNode n) = 0"

text \<open>
  \<open>get_from_layer\<close> returns what was read together with the store and the tree after the
  call: a read of an absent name on an unfrozen tree stores a new child tree that shares
  the parent's \<open>_layers\<close> list object.
\<close>

fun get_from_layer ::
  "heap \<Rightarrow> config \<Rightarrow> string \<Rightarrow> layer \<Rightarrow> pyerror + read_result \<times> heap \<times> config" where
  "get_from_layer h (CNode n) name layer = Inl AttributeError"
| "get_from_layer h (CTree a cs f) name layer =
     (if map_of cs name = None \<and> f then Inl KeyError
      else
        (let (h', cs') =
               (if map_of cs name = None
                then (let (h1, c) = new_tree h (Some a) in (h1, AList.update name c cs))
                else (h, cs))
         in (case the (map_of cs' name) of
               CNode n \<Rightarrow>
                 (case get_value h' n layer of
                    Inl e \<Rightarrow> Inl e
                  | Inr v \<Rightarrow> Inr (Value v, h', CTree a cs' f))
             | child \<Rightarrow> Inr (Subtree child, h', CTree a cs' f))))"

text \<open>
  The two guarded assignments of \<open>set_with_metadata\<close>: the child under \<open>name\<close> is kept when
  it has the right class and is otherwise replaced by a new object built on a copy of the
  parent's layers.
\<close>

definition tree_child :: "heap \<Rightarrow> addr \<Rightarrow> (string \<times> config) list \<Rightarrow> string \<Rightarrow> heap \<times> config" where
  "tree_child h a cs name =
     (case map_of cs name of
        Some (CTree a' cs' f') \<Rightarrow> (h, CTree a' cs' f')
      | _ \<Rightarrow> (let (h0, b) = list_copy h a in new_tree h0 (Some b)))"

definition node_child :: "heap \<Rightarrow> addr \<Rightarrow> (string \<times> config) list \<Rightarrow> string \<Rightarrow> heap \<times> ConfigNode" where
  "node_child h a cs name =
     (case map_of cs name of
        Some (CNode n) \<Rightarrow> (h, n)
      | _ \<Rightarrow> (let (h0, b) = list_copy h a in ConfigNode_init h0 (Some b)))"

fun set_with_metadata ::
    "heap \<Rightarrow> config \<Rightarrow> string \<Rightarrow> pyvalue \<Rightarrow> layer \<Rightarrow> source \<Rightarrow> pyerror + heap \<times> config"
  and read_dict ::
    "heap \<Rightarrow> config \<Rightarrow> (string \<times> pyvalue) list \<Rightarrow> layer \<Rightarrow> source \<Rightarrow> pyerror + heap \<times> config"
  where
  "set_with_metadata h (CNode n) name v layer src = Inl AttributeError"
| "set_with_metadata h (CTree a cs f) name (Dict d) layer src =
     (if f then Inl TypeError
      else (let (h1, child) = tree_child h a cs name
            in (case read_dict h1 child d layer src of
                  Inl e \<Rightarrow> Inl e
                | Inr (h2, child') \<Rightarrow> Inr (h2, CTree a (AList.update name child' cs) f))))"
| "set_with_metadata h (CTree a cs f) name (Scalar v) layer src =
     (if f then Inl TypeError
      else (let (h1, n) = node_child h a cs name
            in (case set_value h1 n v layer src of
                  Inl e \<Rightarrow> Inl e
                | Inr n' \<Rightarrow> Inr (h1, CTree a (AList.update name (CNode n') cs) f))))"
| "read_dict h t [] layer src = Inr (h, t)"
| "read_dict h t ((k, v) # d) layer src =
     (case set_with_metadata h t k v layer src of
        Inl e \<Rightarrow> Inl e
      | Inr (h', t') \<Rightarrow> read_dict h' t' d layer src)"


text \<open>\<open>ConfigTree.__init__\<close>: a non-empty \<open>data\<close> is read into the first layer.\<close>

definition ConfigTree_init ::
  "heap \<Rightarrow> (string \<times> pyvalue) list option \<Rightarrow> addr option \<Rightarrow> pyerror + heap \<times> config" where
  "ConfigTree_init h data layers =
     (let (h1, t) = new_tree h layers
      in (case data of
            None \<Rightarrow> Inr (h1, t)
          | Some d \<Rightarrow>
              if d = [] then Inr (h1, t)
              else read_dict h1 t d (Some (hd (h1 ! t_layers t))) (Some ''initial data'')))"

text \<open>
  \<open>drop_layer\<close>: every child first, in the order of \<open>_children\<close>, then the tree's own
  \<open>_layers.remove(layer)\<close>. The first exception ends the call.
\<close>

fun drop_layer :: "heap \<Rightarrow> config \<Rightarrow> string \<Rightarrow> pyerror + heap \<times> config"
  and drop_layer_children ::
    "heap \<Rightarrow> (string \<times> config) list \<Rightarrow> string \<Rightarrow> pyerror + heap \<times> (string \<times> config) list"
  where
  "drop_layer h (CNode n) l =
     (case node_drop_layer h n l of Inl e \<Rightarrow> Inl e | Inr (h', n') \<Rightarrow> Inr (h', CNode n'))"
| "drop_layer h (CTree a cs f) l =
     (case drop_layer_children h cs l of
        Inl e \<Rightarrow> Inl e
      | Inr (h', cs') \<Rightarrow>
          (case list_remove h' a l of Inl e \<Rightarrow> Inl e | Inr h'' \<Rightarrow> Inr (h'', CTree a cs' f)))"
| "drop_layer_children h [] l = Inr (h, [])"
| "drop_layer_children h ((k, c) # cs) l =
     (case drop_layer h c l of
        Inl e \<Rightarrow> Inl e
      | Inr (h', c') \<Rightarrow>
          (case drop_layer_children h' cs l of
             Inl e \<Rightarrow> Inl e
           | Inr (h'', cs') \<Rightarrow> Inr (h'', (k, c') # cs')))"

text \<open>
  \<open>_reset_layer\<close>: a child whose path is preserved is skipped, a child tree is entered,
  any other child gets \<open>reset_layer(layer)\<close>.
\<close>

fun reset_layer_rec :: "config \<Rightarrow> string \<Rightarrow> string list list \<Rightarrow> string list \<Rightarrow> pyerror + config"
  and reset_layer_children ::
    "(string \<times> config) list \<Rightarrow> string \<Rightarrow> string list list \<Rightarrow> string list
       \<Rightarrow> pyerror + (string \<times> config) list"
  where
  "reset_layer_rec (CNode n) l pres pfx = Inl AttributeError"
| "reset_layer_rec (CTree a cs f) l pres pfx =
     (case reset_layer_children cs l pres pfx of
        Inl e \<Rightarrow> Inl e
      | Inr cs' \<Rightarrow> Inr (CTree a cs' f))"
| "reset_layer_children [] l pres pfx = Inr []"
| "reset_layer_children ((k, CNode n) # cs) l pres pfx =
     (if pfx @ [k] \<in> set pres
      then (case reset_layer_children cs l pres pfx of
              Inl e \<Rightarrow> Inl e
            | Inr cs' \<Rightarrow> Inr ((k, CNode n) # cs'))
      else (case node_reset_layer n l of
              Inl e \<Rightarrow> Inl e
            | Inr n' \<Rightarrow>
                (case reset_layer_children cs l pres pfx of
                   Inl e \<Rightarrow> Inl e
                 | Inr cs' \<Rightarrow> Inr ((k, CNode n') # cs'))))"
| "reset_layer_children ((k, CTree a cs0 f) # cs) l pres pfx =
     (if pfx @ [k] \<in> set pres
      then (case reset_layer_children cs l pres pfx of
              Inl e \<Rightarrow> Inl e
            | Inr cs' \<Rightarrow> Inr ((k, CTree a cs0 f) # cs'))
      else (case reset_layer_rec (CTree a cs0 f) l pres (pfx @ [k]) of
              Inl e \<Rightarrow> Inl e
            | Inr c' \<Rightarrow>
                (case reset_layer_children cs l pres pfx of
                   Inl e \<Rightarrow> Inl e
                 | Inr cs' \<Rightarrow> Inr ((k, c') # cs'))))"



text \<open>
  The object reached from a tree by a path of names through \<open>_children\<close>; the empty path
  is the object itself.
\<close>

fun object_at :: "config \<Rightarrow> string list \<Rightarrow> config option"
  and child_at :: "(string \<times> config) list \<Rightarrow> string \<Rightarrow> string list \<Rightarrow> config option" where
  "object_at c [] = Some c"
| "object_at (CNode n) (k # ks) = None"
| "object_at (CTree a cs f) (k # ks) = child_at cs k ks"
| "child_at [] k ks = None"
| "child_at ((k', c) # cs) k ks = (if k' = k then object_at c ks else child_at cs k ks)"

section \<open>Scenario: layers override and base\<close>

text \<open>
  \<open>ConfigTree(layers=['override', 'base'])\<close>, then \<open>x\<close> is written at layer \<open>base\<close> with
  source \<open>defaults\<close> and at layer \<open>override\<close> with source \<open>cli\<close>.
\<close>

definition override_base_tree :: "pyerror + heap \<times> config" where
  "override_base_tree =
     (let (h, a) = alloc [] [''override'', ''base'']
      in (case ConfigTree_init h None (Some a) of
            Inl e \<Rightarrow> Inl e
          | Inr (h1, t1) \<Rightarrow>
              (case set_with_metadata h1 t1 ''x'' (Scalar (PyInt 1)) (Some ''base'') (Some ''defaults'') of
                 Inl e \<Rightarrow> Inl e
               | Inr (h2, t2) \<Rightarrow>
                   set_with_metadata h2 t2 ''x'' (Scalar (PyInt 2)) (Some ''override'') (Some ''cli''))))"

definition override_base_read :: "layer \<Rightarrow> pyerror + entry" where
  "override_base_read layer =
     (case override_base_tree of
        Inl e \<Rightarrow> Inl e
      | Inr (h, t) \<Rightarrow>
          (case object_at t [''x''] of
             Some (CNode n) \<Rightarrow> get_value_with_source h n layer
           | _ \<Rightarrow> Inl AttributeError))"

definition override_base_metadata :: "pyerror + metadata_record list" where
  "override_base_metadata =
     (case override_base_tree of
        Inl e \<Rightarrow> Inl e
      | Inr (h, t) \<Rightarrow>
          (case object_at t [''x''] of
             Some (CNode n) \<Rightarrow> Inr (node_metadata h n)
           | _ \<Rightarrow> Inl AttributeError))"

section \<open>Well-formed trees\<close>

text \<open>
  Predicates used to state the properties: no object of a tree is frozen; the addresses of
  all \<open>_layers\<close> attributes of a tree, in traversal order; every such address holds a
  non-empty list object of the store. The store only grows by \<open>alloc\<close>, so a later store
  has an earlier one as a prefix.
\<close>

fun all_unfrozen :: "config \<Rightarrow> bool"
  and all_unfrozen_children :: "(string \<times> config) list \<Rightarrow> bool" where
  "all_unfrozen (CNode n) = (\<not> n_frozen n)"
| "all_unfrozen (CTree a cs f) = (\<not> f \<and> all_unfrozen_children cs)"
| "all_unfrozen_children [] = True"
| "all_unfrozen_children ((k, c) # cs) = (all_unfrozen c \<and> all_unfrozen_children cs)"

fun layer_refs :: "config \<Rightarrow> addr list"
  and layer_refs_children :: "(string \<times> config) list \<Rightarrow> addr list" where
  "layer_refs (CNode n) = [n_layers n]"
| "layer_refs (CTree a cs f) = a # layer_refs_children cs"
| "layer_refs_children [] = []"
| "layer_refs_children ((k, c) # cs) = layer_refs c @ layer_refs_children cs"

definition refs_ok :: "heap \<Rightarrow> addr list \<Rightarrow> bool" where
  "refs_ok h as = list_all (\<lambda>a. a < length h \<and> h ! a \<noteq> []) as"

fun is_tree :: "config \<Rightarrow> bool" where
  "is_tree (CTree a cs f) = True"
| "is_tree (CNode n) = False"

definition writable :: "heap \<Rightarrow> config \<Rightarrow> bool" where
  "writable h t = (is_tree t \<and> all_unfrozen t \<and> refs_ok h (layer_refs t))"


section \<open>The event framework\<close>

text \<open>
  An event carries an index, user data and, for an \<open>Event\<close> object, the attribute \<open>time\<close>
  (\<open>None\<close> until the event is emitted). \<open>ev_time\<close> is \<open>None\<close> for an object without a
  \<open>time\<close> attribute (\<open>hasattr(event, 'time')\<close> is false).
\<close>

record event =
  ev_index :: "nat list"
  ev_user_data :: "(string \<times> scalar) list"
  ev_time :: "nat option option"

definition Event_init :: "nat list \<Rightarrow> (string \<times> scalar) list \<Rightarrow> event" where
  "Event_init index user_data = \<lparr>ev_index = index, ev_user_data = user_data, ev_time = Some None\<rparr>"

text \<open>\<open>Event.split\<close>: a new event with the new index and the user data and time of this one.\<close>

definition event_split :: "event \<Rightarrow> nat list \<Rightarrow> event" where
  "event_split ev new_index = (Event_init new_index (ev_user_data ev))\<lparr>ev_time := ev_time ev\<rparr>"

text \<open>
  A listener is a callable: it has a \<open>__name__\<close>, an identity (two callables can have the
  same name) and, when called, returns or raises.
\<close>

record listener =
  l_name :: string
  l_id :: nat
  l_raises :: "pyerror option"

text \<open>A channel is its list of priority buckets, \<open>[[] for i in range(10)]\<close> at creation.\<close>

type_synonym channel = "listener list list"

definition new_channel :: channel where
  "new_channel = replicate 10 []"

text \<open>
  The manager: \<open>__event_types\<close> is a \<open>defaultdict\<close>, whose lookup of an absent name stores a
  new channel under it; \<open>clock\<close> is absent until \<open>EventManager.setup\<close> and is modelled by the time it
  returns.
\<close>

record EventManager =
  event_types :: "(string \<times> channel) list"
  clock :: "nat option"

definition EventManager_init :: EventManager where
  "EventManager_init = \<lparr>event_types = [], clock = None\<rparr>"

definition manager_setup :: "EventManager \<Rightarrow> nat \<Rightarrow> EventManager" where
  "manager_setup m builder_clock = m\<lparr>clock := Some builder_clock\<rparr>"

definition channel_lookup :: "EventManager \<Rightarrow> string \<Rightarrow> EventManager \<times> channel" where
  "channel_lookup m name =
     (case map_of (event_types m) name of
        Some ch \<Rightarrow> (m, ch)
      | None \<Rightarrow> (m\<lparr>event_types := event_types m @ [(name, new_channel)]\<rparr>, new_channel))"

text \<open>
  The loops of \<open>_EventChannel.emit\<close>. The result is the list of the listeners that were
  called, in the order of the calls, and the exception that ended the emission, if any.
\<close>

fun call_listeners :: "listener list \<Rightarrow> listener list \<times> pyerror option" where
  "call_listeners [] = ([], None)"
| "call_listeners (l # ls) =
     (case l_raises l of
        Some e \<Rightarrow> ([l], Some e)
      | None \<Rightarrow> (case call_listeners ls of (tr, r) \<Rightarrow> (l # tr, r)))"

fun emit_buckets :: "listener list list \<Rightarrow> listener list \<times> pyerror option" where
  "emit_buckets [] = ([], None)"
| "emit_buckets (b # bs) =
     (case call_listeners (sort_key l_name b) of
        (tr, Some e) \<Rightarrow> (tr, Some e)
      | (tr, None) \<Rightarrow> (case emit_buckets bs of (tr', r) \<Rightarrow> (tr @ tr', r)))"

text \<open>
  \<open>emit\<close> stamps an event that has a \<open>time\<close> attribute with \<open>self.manager.clock()\<close>, an
  \<open>AttributeError\<close> when the manager has no clock, and calls the listeners. It returns the
  event as the listeners got it, the listeners called and the exception, if any.
\<close>

definition emit :: "EventManager \<Rightarrow> channel \<Rightarrow> event \<Rightarrow> event \<times> listener list \<times> pyerror option" where
  "emit m ch ev =
     (if ev_time ev \<noteq> None
      then (case clock m of
              None \<Rightarrow> (ev, [], Some AttributeError)
            | Some t \<Rightarrow> (ev\<lparr>ev_time := Some (Some t)\<rparr>, emit_buckets ch))
      else (ev, emit_buckets ch))"

text \<open>
  \<open>get_emitter\<close> looks the channel up, which creates it when absent, and returns its bound
  method \<open>emit\<close>. The emitter is represented by the channel's name: calling it runs \<open>emit\<close>
  on the channel as it is at the time of the call.
\<close>

definition get_emitter :: "EventManager \<Rightarrow> string \<Rightarrow> EventManager" where
  "get_emitter m name = fst (channel_lookup m name)"

definition call_emitter ::
  "EventManager \<Rightarrow> string \<Rightarrow> event \<Rightarrow> pyerror + event \<times> listener list \<times> pyerror option" where
  "call_emitter m name ev =
     (case map_of (event_types m) name of
        None \<Rightarrow> Inl KeyError
      | Some ch \<Rightarrow> Inr (emit m ch ev))"

text \<open>Indexing a list of length \<open>n\<close> with a Python integer: the position, if any.\<close>

definition py_index :: "int \<Rightarrow> nat \<Rightarrow> nat option" where
  "py_index i n =
     (if 0 \<le> i \<and> i < int n then Some (nat i)
      else if - int n \<le> i \<and> i < 0 then Some (nat (int n + i))
      else None)"

text \<open>
  \<open>register_listener\<close>: \<open>self.__event_types[name].listeners[priority].append(listener)\<close>.
\<close>

definition register_listener ::
  "EventManager \<Rightarrow> string \<Rightarrow> listener \<Rightarrow> int \<Rightarrow> pyerror + EventManager" where
  "register_listener m name l priority =
     (let (m1, ch) = channel_lookup m name
      in (case py_index priority (length ch) of
            None \<Rightarrow> Inl IndexError
          | Some i \<Rightarrow> Inr (m1\<lparr>event_types := AList.update name (ch[i := ch ! i @ [l]]) (event_types m1)\<rparr>)))"

definition list_events :: "EventManager \<Rightarrow> string list" where
  "list_events m = map fst (event_types m)"







section \<open>Nested mappings and reads along a path\<close>

text \<open>
  The leaves of a nested mapping, each with the path of keys that leads to it. The keys of
  a Python dict are distinct, at every level of nesting.
\<close>

fun leaves_of :: "pyvalue \<Rightarrow> (string list \<times> scalar) list"
  and leaves :: "(string \<times> pyvalue) list \<Rightarrow> (string list \<times> scalar) list" where
  "leaves_of (Scalar v) = [([], v)]"
| "leaves_of (Dict d) = leaves d"
| "leaves [] = []"
| "leaves ((k, v) # d) = map (\<lambda>(p, x). (k # p, x)) (leaves_of v) @ leaves d"

fun distinct_keys_of :: "pyvalue \<Rightarrow> bool"
  and distinct_keys :: "(string \<times> pyvalue) list \<Rightarrow> bool" where
  "distinct_keys_of (Scalar v) = True"
| "distinct_keys_of (Dict d) = distinct_keys d"
| "distinct_keys [] = True"
| "distinct_keys ((k, v) # d) = (k \<notin> fst ` set d \<and> distinct_keys_of v \<and> distinct_keys d)"

text \<open>
  A client reading a path \<open>tree.k1.k2...kn\<close>: each name but the last is read without a
  layer and must give a tree; the last is read with \<open>get_from_layer(kn, layer)\<close>. A scalar
  met before the end of the path has no such attribute.
\<close>

fun read_path :: "heap \<Rightarrow> config \<Rightarrow> string list \<Rightarrow> layer \<Rightarrow> pyerror + read_result" where
  "read_path h t [] layer = Inr (Subtree t)"
| "read_path h t [k] layer =
     (case get_from_layer h t k layer of Inl e \<Rightarrow> Inl e | Inr (r, h', t') \<Rightarrow> Inr r)"
| "read_path h t (k # k' # ks) layer =
     (case get_from_layer h t k None of
        Inl e \<Rightarrow> Inl e
      | Inr (Value v, h', t') \<Rightarrow> Inl AttributeError
      | Inr (Subtree c, h', t') \<Rightarrow> read_path h' c (k' # ks) layer)"

text \<open>
  Scenario: a tree with layers \<open>base\<close> and \<open>override\<close> in which \<open>x\<close> is set to 5 at layer
  \<open>override\<close>; then the mapping \<open>{x: 1}\<close> is read into layer \<open>base\<close>.
\<close>

definition shadowed_tree :: "pyerror + heap \<times> config" where
  "shadowed_tree =
     (let (h, a) = alloc [] [''base'', ''override'']
      in (case ConfigTree_init h None (Some a) of
            Inl e \<Rightarrow> Inl e
          | Inr (h1, t1) \<Rightarrow>
              (case set_with_metadata h1 t1 ''x'' (Scalar (PyInt 5)) (Some ''override'') (Some ''cli'') of
                 Inl e \<Rightarrow> Inl e
               | Inr (h2, t2) \<Rightarrow>
                   read_dict h2 t2 [(''x'', Scalar (PyInt 1))] (Some ''base'') (Some ''file''))))"

definition shadowed_read :: "layer \<Rightarrow> pyerror + read_result" where
  "shadowed_read layer =
     (case shadowed_tree of Inl e \<Rightarrow> Inl e | Inr (h, t) \<Rightarrow> read_path h t [''x''] layer)"

text \<open>
  The object at a path is a node whose \<open>get_value_with_source(layer)\<close> gives the source
  and the value.
\<close>

definition stored_leaf :: "heap \<Rightarrow> config \<Rightarrow> string list \<Rightarrow> layer \<Rightarrow> source \<Rightarrow> scalar \<Rightarrow> bool" where
  "stored_leaf h t p layer src v =
     (case object_at t p of
        Some (CNode n) \<Rightarrow> get_value_with_source h n layer = Inr (src, v)
      | _ \<Rightarrow> False)"

section \<open>Dropping a layer: what it is to achieve, and three trees\<close>

text \<open>
  In the specification's words, \<open>drop_layer\<close> removes the layer's entry from every
  descendant node and the layer's name from the declared sequences: \<open>strip_layer\<close> is the
  tree without the entries, \<open>drop_heap\<close> the store in which the first occurrence of the
  name is removed from the list objects at the given addresses.
\<close>

fun strip_layer :: "string \<Rightarrow> config \<Rightarrow> config"
  and strip_layer_children :: "string \<Rightarrow> (string \<times> config) list \<Rightarrow> (string \<times> config) list" where
  "strip_layer l (CNode n) = CNode (n\<lparr>n_values := AList.delete l (n_values n)\<rparr>)"
| "strip_layer l (CTree a cs f) = CTree a (strip_layer_children l cs) f"
| "strip_layer_children l [] = []"
| "strip_layer_children l ((k, c) # cs) = (k, strip_layer l c) # strip_layer_children l cs"

definition drop_heap :: "heap \<Rightarrow> addr list \<Rightarrow> string \<Rightarrow> heap" where
  "drop_heap h as l = map (\<lambda>i. if i \<in> set as then remove1 l (h ! i) else h ! i) [0..<length h]"

text \<open>Every node of the tree stores a value for the layer.\<close>

fun all_nodes_store :: "string \<Rightarrow> config \<Rightarrow> bool"
  and all_nodes_store_children :: "string \<Rightarrow> (string \<times> config) list \<Rightarrow> bool" where
  "all_nodes_store l (CNode n) = (map_of (n_values n) l \<noteq> None)"
| "all_nodes_store l (CTree a cs f) = all_nodes_store_children l cs"
| "all_nodes_store_children l [] = True"
| "all_nodes_store_children l ((k, c) # cs) = (all_nodes_store l c \<and> all_nodes_store_children l cs)"

text \<open>
  First tree: layers \<open>base\<close> and \<open>clinical\<close>; the mapping \<open>{x: 1, grp: {y: 2}}\<close> is read
  into \<open>base\<close> and \<open>{x: 10, grp: {y: 20}}\<close> into \<open>clinical\<close>, so that every node has a
  value in both layers; then \<open>clinical\<close> is dropped, and dropped again.
\<close>

definition clinical_tree :: "pyerror + heap \<times> config" where
  "clinical_tree =
     (let (h, a) = alloc [] [''base'', ''clinical'']
      in (case ConfigTree_init h None (Some a) of
            Inl e \<Rightarrow> Inl e
          | Inr (h1, t1) \<Rightarrow>
              (case read_dict h1 t1
                      [(''x'', Scalar (PyInt 1)), (''grp'', Dict [(''y'', Scalar (PyInt 2))])]
                      (Some ''base'') (Some ''defaults'') of
                 Inl e \<Rightarrow> Inl e
               | Inr (h2, t2) \<Rightarrow>
                   read_dict h2 t2
                     [(''x'', Scalar (PyInt 10)), (''grp'', Dict [(''y'', Scalar (PyInt 20))])]
                     (Some ''clinical'') (Some ''study''))))"

definition clinical_dropped :: "pyerror + heap \<times> config" where
  "clinical_dropped =
     (case clinical_tree of Inl e \<Rightarrow> Inl e | Inr (h, t) \<Rightarrow> drop_layer h t ''clinical'')"

definition clinical_dropped_read :: "string list \<Rightarrow> pyerror + read_result" where
  "clinical_dropped_read p =
     (case clinical_dropped of Inl e \<Rightarrow> Inl e | Inr (h, t) \<Rightarrow> read_path h t p None)"

definition clinical_dropped_twice :: "pyerror + heap \<times> config" where
  "clinical_dropped_twice =
     (case clinical_dropped of Inl e \<Rightarrow> Inl e | Inr (h, t) \<Rightarrow> drop_layer h t ''clinical'')"

text \<open>
  Second tree: the same layers; \<open>{x: 1, y: 2}\<close> is read into \<open>base\<close> and \<open>{x: 10}\<close> into
  \<open>clinical\<close>, so that the tree has values in both layers but \<open>y\<close> has none in
  \<open>clinical\<close>; then \<open>clinical\<close> is dropped.
\<close>

definition partial_layer_tree :: "pyerror + heap \<times> config" where
  "partial_layer_tree =
     (let (h, a) = alloc [] [''base'', ''clinical'']
      in (case ConfigTree_init h None (Some a) of
            Inl e \<Rightarrow> Inl e
          | Inr (h1, t1) \<Rightarrow>
              (case read_dict h1 t1 [(''x'', Scalar (PyInt 1)), (''y'', Scalar (PyInt 2))]
                      (Some ''base'') (Some ''defaults'') of
                 Inl e \<Rightarrow> Inl e
               | Inr (h2, t2) \<Rightarrow>
                   read_dict h2 t2 [(''x'', Scalar (PyInt 10))] (Some ''clinical'') (Some ''study''))))"

definition partial_layer_dropped :: "pyerror + heap \<times> config" where
  "partial_layer_dropped =
     (case partial_layer_tree of Inl e \<Rightarrow> Inl e | Inr (h, t) \<Rightarrow> drop_layer h t ''clinical'')"

text \<open>
  Third tree: the same layers, but the subtree \<open>grp\<close> is created by a read (\<open>tree.grp\<close>),
  which gives it the list object of its parent; \<open>y\<close> is then written in the subtree at both
  layers (the subtree is the object stored under \<open>grp\<close>, so the parent holds the result),
  and \<open>clinical\<close> is dropped on the parent.
\<close>

definition shared_layers_tree :: "pyerror + heap \<times> config" where
  "shared_layers_tree =
     (let (h, a) = alloc [] [''base'', ''clinical'']
      in (case ConfigTree_init h None (Some a) of
            Inl e \<Rightarrow> Inl e
          | Inr (h1, t1) \<Rightarrow>
              (case get_from_layer h1 t1 ''grp'' None of
                 Inl e \<Rightarrow> Inl e
               | Inr (Value v, h2, t2) \<Rightarrow> Inl AttributeError
               | Inr (Subtree c, h2, t2) \<Rightarrow>
                   (case read_dict h2 c [(''y'', Scalar (PyInt 2))] (Some ''base'') (Some ''defaults'') of
                      Inl e \<Rightarrow> Inl e
                    | Inr (h3, c3) \<Rightarrow>
                        (case read_dict h3 c3 [(''y'', Scalar (PyInt 20))] (Some ''clinical'') (Some ''study'') of
                           Inl e \<Rightarrow> Inl e
                         | Inr (h4, c4) \<Rightarrow>
                             Inr (h4, CTree (t_layers t2) (AList.update ''grp'' c4 (t_children t2))
                                        (t_frozen t2)))))))"

definition shared_layers_dropped :: "pyerror + heap \<times> config" where
  "shared_layers_dropped =
     (case shared_layers_tree of Inl e \<Rightarrow> Inl e | Inr (h, t) \<Rightarrow> drop_layer h t ''clinical'')"

section \<open>Properties of ConfigNode\<close>

lemma scan_layers_first:
  "map_of vs l = Some p \<Longrightarrow> \<forall>l' \<in> set pre. map_of vs l' = None \<Longrightarrow>
   scan_layers vs (pre @ l # post) = Inr p"
  by (induction pre) auto

lemma scan_layers_none:
  "\<forall>l \<in> set ls. map_of vs l = None \<Longrightarrow> scan_layers vs ls = Inl KeyError"
  by (induction ls) auto

text \<open>
  C1. Called without a layer, \<open>get_value_with_source\<close> returns the stored pair of the
  last declared layer that has a stored value (the first one met when the declared layers
  are scanned in reverse), and fails with \<open>KeyError\<close> (NotFound) when no declared layer has
  one; \<open>get_value\<close> returns the value half of the same pair, and the same failure.
\<close>

theorem get_value_most_specific_layer:
  "(\<not> truthy layer \<and> h ! n_layers n = pre @ l # post \<and> map_of (n_values n) l = Some p \<and>
      (\<forall>l' \<in> set post. map_of (n_values n) l' = None)
     \<longrightarrow> get_value_with_source h n layer = Inr p \<and> get_value h n layer = Inr (snd p))
   \<and> (\<not> truthy layer \<and> (\<forall>l' \<in> set (h ! n_layers n). map_of (n_values n) l' = None)
     \<longrightarrow> get_value_with_source h n layer = Inl KeyError \<and> get_value h n layer = Inl KeyError)"
proof (intro conjI impI)
  assume a: "\<not> truthy layer \<and> h ! n_layers n = pre @ l # post \<and> map_of (n_values n) l = Some p \<and>
      (\<forall>l' \<in> set post. map_of (n_values n) l' = None)"
  then have "scan_layers (n_values n) (rev post @ l # rev pre) = Inr p"
    by (intro scan_layers_first) auto
  with a show r: "get_value_with_source h n layer = Inr p"
    by (simp add: get_value_with_source_def)
  then show "get_value h n layer = Inr (snd p)"
    by (simp add: get_value_def)
next
  assume a: "\<not> truthy layer \<and> (\<forall>l' \<in> set (h ! n_layers n). map_of (n_values n) l' = None)"
  then have "scan_layers (n_values n) (rev (h ! n_layers n)) = Inl KeyError"
    by (intro scan_layers_none) auto
  with a show r: "get_value_with_source h n layer = Inl KeyError"
    by (simp add: get_value_with_source_def)
  then show "get_value h n layer = Inl KeyError"
    by (simp add: get_value_def)
qed

theorem get_value_most_specific_layer_witness:
  "get_value_with_source [[''a'', ''b'', ''c'']]
      \<lparr>n_layers = 0, n_values = [(''a'', (None, PyInt 1)), (''b'', (Some ''s'', PyInt 2))], n_frozen = False\<rparr>
      None = Inr (Some ''s'', PyInt 2)
   \<and> get_value [[''a'', ''b'', ''c'']]
      \<lparr>n_layers = 0, n_values = [(''a'', (None, PyInt 1)), (''b'', (Some ''s'', PyInt 2))], n_frozen = False\<rparr>
      None = Inr (PyInt 2)
   \<and> get_value_with_source [[''a'', ''b'', ''c'']]
      \<lparr>n_layers = 0, n_values = [(''z'', (None, PyInt 1))], n_frozen = False\<rparr> None = Inl KeyError
   \<and> get_value [[''a'', ''b'', ''c'']]
      \<lparr>n_layers = 0, n_values = [(''z'', (None, PyInt 1))], n_frozen = False\<rparr> None = Inl KeyError"
  using get_value_most_specific_layer [of None "[[''a'', ''b'', ''c'']]"
      "\<lparr>n_layers = 0, n_values = [(''a'', (None, PyInt 1)), (''b'', (Some ''s'', PyInt 2))], n_frozen = False\<rparr>"
      "[''a'']" "''b''" "[''c'']" "(Some ''s'', PyInt 2)"]
    get_value_most_specific_layer [of None "[[''a'', ''b'', ''c'']]"
      "\<lparr>n_layers = 0, n_values = [(''z'', (None, PyInt 1))], n_frozen = False\<rparr>"]
  by (simp add: truthy_def)

text \<open>
  C2, as stated: in the scenario a read of \<open>x\<close> without a layer would return
  \<open>("cli", 2)\<close>. The scan starts at the last declared layer, which is \<open>base\<close>, so the read
  returns \<open>("defaults", 1)\<close>.
\<close>

theorem override_base_read_counterexample:
  "override_base_read None \<noteq> Inr (Some ''cli'', PyInt 2)"
  by (simp add: override_base_read_def override_base_tree_def alloc_def ConfigTree_init_def
      new_tree_def node_child_def list_copy_def ConfigNode_init_def set_value_def truthy_def
      get_value_with_source_def)

text \<open>
  C2, amended: in the scenario a read of \<open>x\<close> without a layer returns \<open>("defaults", 1)\<close>,
  with layer \<open>base\<close> it returns \<open>("defaults", 1)\<close>, with layer \<open>override\<close> it returns
  \<open>("cli", 2)\<close>, and \<open>metadata()\<close> returns exactly two records in declaration order: the one
  of \<open>override\<close> with default false, then the one of \<open>base\<close> with default true.
\<close>

theorem override_base_scenario:
  "override_base_read None = Inr (Some ''defaults'', PyInt 1)
   \<and> override_base_read (Some ''base'') = Inr (Some ''defaults'', PyInt 1)
   \<and> override_base_read (Some ''override'') = Inr (Some ''cli'', PyInt 2)
   \<and> override_base_metadata =
       Inr [\<lparr>md_layer = ''override'', md_value = PyInt 2, md_source = Some ''cli'', md_default = False\<rparr>,
            \<lparr>md_layer = ''base'', md_value = PyInt 1, md_source = Some ''defaults'', md_default = True\<rparr>]"
  by (simp add: override_base_read_def override_base_metadata_def override_base_tree_def alloc_def
      ConfigTree_init_def new_tree_def node_child_def list_copy_def ConfigNode_init_def
      set_value_def truthy_def get_value_with_source_def node_metadata_def)

section \<open>Properties of ConfigTree\<close>

lemma update_absent: "map_of cs k = None \<Longrightarrow> AList.update k v cs = cs @ [(k, v)]"
  by (induction cs) (auto split: if_splits)

text \<open>
  C6. A read by name on a tree: with no child under the name, a frozen tree raises
  \<open>KeyError\<close> (NotFound) and an unfrozen tree stores a new empty, unfrozen child tree under
  the name (after the children it had) and returns it; the new child uses the parent's list
  of layers when that is not empty. A child that is a node gives the node's resolved value
  (or the node's failure), a child that is a tree is returned itself, and neither changes the
  tree. \<open>name in tree\<close> is true exactly when the name is a key of \<open>_children\<close>; it returns
  a truth value only and leaves the tree as it is.
\<close>

theorem name_based_read:
  "(map_of cs name = None \<and> f \<longrightarrow> get_from_layer h (CTree a cs f) name layer = Inl KeyError)
   \<and> (map_of cs name = None \<and> \<not> f \<longrightarrow>
        (\<exists>b h'. get_from_layer h (CTree a cs f) name layer
                  = Inr (Subtree (CTree b [] False), h', CTree a (cs @ [(name, CTree b [] False)]) f)
               \<and> (h ! a \<noteq> [] \<longrightarrow> b = a \<and> h' = h)))
   \<and> (map_of cs name = Some (CNode n) \<longrightarrow>
        get_from_layer h (CTree a cs f) name layer
          = (case get_value h n layer of Inl e \<Rightarrow> Inl e | Inr v \<Rightarrow> Inr (Value v, h, CTree a cs f)))
   \<and> (map_of cs name = Some (CTree a' cs' f') \<longrightarrow>
        get_from_layer h (CTree a cs f) name layer
          = Inr (Subtree (CTree a' cs' f'), h, CTree a cs f))
   \<and> (contains (CTree a cs f) name \<longleftrightarrow> name \<in> fst ` set cs)"
proof -
  have absent: "map_of cs name = None \<Longrightarrow> \<not> f \<Longrightarrow>
      get_from_layer h (CTree a cs f) name layer
        = Inr (Subtree (CTree b [] False), h', CTree a (cs @ [(name, CTree b [] False)]) f)"
    if "new_tree h (Some a) = (h', CTree b [] False)" for b h'
    using that by (simp add: update_conv') (simp add: update_absent)
  have "\<exists>b h'. new_tree h (Some a) = (h', CTree b [] False) \<and> (h ! a \<noteq> [] \<longrightarrow> b = a \<and> h' = h)"
    by (simp add: new_tree_def alloc_def)
  with absent show ?thesis
    by (auto simp: map_of_eq_None_iff split: sum.splits)
qed

theorem name_based_read_witness:
  "get_from_layer [[''base'']] (CTree 0 [] True) ''x'' None = Inl KeyError
   \<and> get_from_layer [[''base'']] (CTree 0 [] False) ''x'' None
       = Inr (Subtree (CTree 0 [] False), [[''base'']], CTree 0 [(''x'', CTree 0 [] False)] False)
   \<and> get_from_layer [[''base'']]
        (CTree 0 [(''x'', CNode \<lparr>n_layers = 0, n_values = [(''base'', (None, PyInt 7))], n_frozen = False\<rparr>)] False)
        ''x'' None
       = Inr (Value (PyInt 7), [[''base'']],
          CTree 0 [(''x'', CNode \<lparr>n_layers = 0, n_values = [(''base'', (None, PyInt 7))], n_frozen = False\<rparr>)] False)
   \<and> get_from_layer [[''base'']] (CTree 0 [(''x'', CTree 0 [] False)] True) ''x'' None
       = Inr (Subtree (CTree 0 [] False), [[''base'']], CTree 0 [(''x'', CTree 0 [] False)] True)
   \<and> contains (CTree 0 [(''x'', CTree 0 [] False)] True) ''x''
   \<and> \<not> contains (CTree 0 [(''x'', CTree 0 [] False)] True) ''y''"
  using name_based_read [of "[]" "''x''" True "[[''base'']]" 0 None]
    name_based_read [of "[]" "''x''" False "[[''base'']]" 0 None]
    name_based_read [of "[(''x'', CNode \<lparr>n_layers = 0, n_values = [(''base'', (None, PyInt 7))], n_frozen = False\<rparr>)]"
       "''x''" False "[[''base'']]" 0 None
       "\<lparr>n_layers = 0, n_values = [(''base'', (None, PyInt 7))], n_frozen = False\<rparr>"]
    name_based_read [of "[(''x'', CTree 0 [] False)]" "''x''" True "[[''base'']]" 0 None _ 0 "[]" False]
    name_based_read [of "[(''x'', CTree 0 [] False)]" "''y''" True "[[''base'']]" 0 None]
  by (simp add: get_value_def get_value_with_source_def truthy_def)

subsection \<open>Writes into a tree with no frozen object succeed\<close>

lemma heap_ext_trans: "prefix h h1 \<Longrightarrow> prefix h1 h2 \<Longrightarrow> prefix (h::heap) h2"
  by (rule prefix_order.trans)

lemma heap_ext_nth: "prefix h h' \<Longrightarrow> a < length h \<Longrightarrow> h' ! a = h ! a"
  by (auto simp: prefix_def nth_append)

lemma heap_ext_length: "prefix h h' \<Longrightarrow> length h \<le> length h'"
  by (auto simp: prefix_def)

lemma refs_ok_ext: "refs_ok h as \<Longrightarrow> prefix h h' \<Longrightarrow> refs_ok h' as"
  unfolding refs_ok_def list_all_iff
  by (auto simp: prefix_def nth_append)

lemma all_unfrozen_children_iff: "all_unfrozen_children cs \<longleftrightarrow> (\<forall>c \<in> snd ` set cs. all_unfrozen c)"
  by (induction cs) auto

lemma layer_refs_children_set: "set (layer_refs_children cs) = (\<Union>c \<in> snd ` set cs. set (layer_refs c))"
  by (induction cs) auto

lemma tree_child_new:
  assumes "tree_child h a cs name = (h', c)" "\<forall>a' cs' f'. map_of cs name \<noteq> Some (CTree a' cs' f')"
  shows "prefix h h' \<and> (\<exists>b. c = CTree b [] False \<and> length h \<le> b \<and> b < length h' \<and> h' ! b \<noteq> [] \<and>
        h' ! b = (if h ! a = [] then [''base''] else h ! a))"
  using assms
  by (auto simp: tree_child_def list_copy_def new_tree_def alloc_def prefix_def nth_append
      split: if_splits option.splits config.splits)

lemma node_child_new:
  assumes "node_child h a cs name = (h', n)" "\<forall>n'. map_of cs name \<noteq> Some (CNode n')"
  shows "prefix h h' \<and> (\<exists>b. n = \<lparr>n_layers = b, n_values = [], n_frozen = False\<rparr> \<and> length h \<le> b \<and> b < length h' \<and> h' ! b \<noteq> [] \<and>
        h' ! b = (if h ! a = [] then [''base''] else h ! a))"
  using assms
  by (auto simp: node_child_def list_copy_def ConfigNode_init_def alloc_def prefix_def nth_append
      split: if_splits option.splits config.splits)

lemma update_snd_subset: "snd ` set (AList.update k v cs) \<subseteq> insert v (snd ` set cs)"
  by (induction cs) auto

lemma writable_CTree:
  "writable h (CTree a cs f) \<longleftrightarrow>
     \<not> f \<and> a < length h \<and> h ! a \<noteq> [] \<and>
     (\<forall>c \<in> snd ` set cs. all_unfrozen c \<and> refs_ok h (layer_refs c))"
  by (auto simp: writable_def all_unfrozen_children_iff refs_ok_def list_all_iff layer_refs_children_set)

lemma writable_update:
  assumes "writable h (CTree a cs f)" "prefix h h'" "all_unfrozen c" "refs_ok h' (layer_refs c)"
  shows "writable h' (CTree a (AList.update k c cs) f)"
proof -
  from assms(1,2) have "a < length h'" "h' ! a \<noteq> []"
    using heap_ext_nth [of h h' a] heap_ext_length [of h h'] by (auto simp: writable_CTree)
  moreover have "all_unfrozen c' \<and> refs_ok h' (layer_refs c')"
    if "c' \<in> snd ` set (AList.update k c cs)" for c'
  proof -
    from that update_snd_subset [of k c cs] have "c' = c \<or> c' \<in> snd ` set cs" by blast
    with assms show ?thesis by (auto simp: writable_CTree intro: refs_ok_ext)
  qed
  ultimately show ?thesis using assms(1) by (simp add: writable_CTree)
qed

lemma tree_child_writable:
  assumes "writable h (CTree a cs f)" "tree_child h a cs name = (h1, child)"
  shows "prefix h h1 \<and> writable h1 child"
proof (cases "\<exists>a' cs' f'. map_of cs name = Some (CTree a' cs' f')")
  case True
  then obtain a' cs' f' where m: "map_of cs name = Some (CTree a' cs' f')" by blast
  then have "CTree a' cs' f' \<in> snd ` set cs" by (force dest: map_of_SomeD)
  with assms(1) have "all_unfrozen (CTree a' cs' f')" "refs_ok h (layer_refs (CTree a' cs' f'))"
    unfolding writable_CTree by blast+
  with assms(2) m show ?thesis
    by (auto simp: tree_child_def writable_def)
next
  case False
  with assms(2) tree_child_new [of h a cs name h1 child] show ?thesis
    by (auto simp: writable_def refs_ok_def)
qed

lemma node_child_writable:
  assumes "writable h (CTree a cs f)" "node_child h a cs name = (h1, n)"
  shows "prefix h h1 \<and> \<not> n_frozen n \<and> n_layers n < length h1 \<and> h1 ! n_layers n \<noteq> []"
proof (cases "\<exists>n'. map_of cs name = Some (CNode n')")
  case True
  then obtain n' where m: "map_of cs name = Some (CNode n')" by blast
  then have "CNode n' \<in> snd ` set cs" by (force dest: map_of_SomeD)
  with assms(1) have "all_unfrozen (CNode n')" "refs_ok h (layer_refs (CNode n'))"
    unfolding writable_CTree by blast+
  with assms(2) m show ?thesis
    by (simp add: node_child_def refs_ok_def)
next
  case False
  with assms(2) node_child_new [of h a cs name h1 n] show ?thesis
    by auto
qed

lemma write_total:
  "writable h t \<Longrightarrow>
     \<exists>h' t'. set_with_metadata h t name v layer src = Inr (h', t') \<and> writable h' t' \<and> prefix h h'"
  "writable h t \<Longrightarrow>
     \<exists>h' t'. read_dict h t d layer src = Inr (h', t') \<and> writable h' t' \<and> prefix h h'"
proof (induction h t name v layer src and h t d layer src rule: set_with_metadata_read_dict.induct)
  case (1 h n name v layer src)
  then show ?case by (simp add: writable_def)
next
  case (2 h a cs f name d layer src)
  obtain h1 child where tc: "tree_child h a cs name = (h1, child)" by (cases "tree_child h a cs name")
  from "2.prems" have nf: "\<not> f" by (simp add: writable_CTree)
  from tree_child_writable [OF "2.prems" tc] have w1: "prefix h h1" "writable h1 child" by auto
  from "2.IH" [OF nf tc [symmetric] refl w1(2)]
  obtain h2 child' where r: "read_dict h1 child d layer src = Inr (h2, child')"
    "writable h2 child'" "prefix h1 h2" by blast
  from w1(1) r(3) have p: "prefix h h2" by (rule heap_ext_trans)
  from r(2) have "all_unfrozen child'" "refs_ok h2 (layer_refs child')" by (auto simp: writable_def)
  with writable_update [OF "2.prems" p] have "writable h2 (CTree a (AList.update name child' cs) f)"
    by blast
  with nf tc r p show ?case by simp
next
  case (3 h a cs f name v layer src)
  obtain h1 n where nc: "node_child h a cs name = (h1, n)" by (cases "node_child h a cs name")
  from "3.prems" have nf: "\<not> f" by (simp add: writable_CTree)
  from node_child_writable [OF "3.prems" nc]
  have w1: "prefix h h1" "\<not> n_frozen n" "n_layers n < length h1" "h1 ! n_layers n \<noteq> []" by auto
  then obtain n' where sv: "set_value h1 n v layer src = Inr n'" "n_layers n' = n_layers n"
    "n_frozen n' = n_frozen n"
    by (cases "truthy layer") (auto simp: set_value_def)
  with w1 have "all_unfrozen (CNode n')" "refs_ok h1 (layer_refs (CNode n'))"
    by (auto simp: refs_ok_def)
  with writable_update [OF "3.prems" w1(1)] have "writable h1 (CTree a (AList.update name (CNode n') cs) f)"
    by blast
  with nf nc sv w1 show ?case by simp
next
  case (4 h t layer src)
  then show ?case by simp
next
  case (5 h t k v d layer src)
  from "5.IH"(1) [OF "5.prems"] obtain h1 t1 where
    s: "set_with_metadata h t k v layer src = Inr (h1, t1)" "writable h1 t1" "prefix h h1" by blast
  from "5.IH"(2) [OF s(1) refl s(2)] obtain h2 t2 where
    r: "read_dict h1 t1 d layer src = Inr (h2, t2)" "writable h2 t2" "prefix h1 h2" by blast
  from s r show ?case by (auto intro: heap_ext_trans)
qed

text \<open>
  C9. On an unfrozen tree, assigning a scalar to a name bound to a child tree puts a new
  node in its place: the node has a new list object copied from the tree's layers
  (\<open>['base']\<close> when those are empty), is not frozen and stores the scalar alone, at
  the given layer or at the last layer of its list; nothing of the old subtree is kept and
  no error is raised. Assigning a mapping to a name bound to a node puts in its place the
  tree that results from reading the mapping into a new empty tree, which always succeeds;
  nothing of the old node is kept.
\<close>

theorem assignment_replaces_child:
  "(\<not> f \<and> map_of cs name = Some (CTree a' cs' f') \<longrightarrow>
      (\<exists>h1 b. set_with_metadata h (CTree a cs f) name (Scalar v) layer src
                 = Inr (h1, CTree a (AList.update name
                     (CNode \<lparr>n_layers = b,
                             n_values = [(if truthy layer then the layer else last (h1 ! b), (src, v))],
                             n_frozen = False\<rparr>) cs) f)
              \<and> prefix h h1 \<and> length h \<le> b
              \<and> h1 ! b = (if h ! a = [] then [''base''] else h ! a)))
   \<and> (\<not> f \<and> map_of cs name = Some (CNode n) \<longrightarrow>
      (\<exists>h1 b h2 c'. prefix h h1 \<and> length h \<le> b
              \<and> h1 ! b = (if h ! a = [] then [''base''] else h ! a)
              \<and> read_dict h1 (CTree b [] False) d layer src = Inr (h2, c')
              \<and> set_with_metadata h (CTree a cs f) name (Dict d) layer src
                 = Inr (h2, CTree a (AList.update name c' cs) f)))"
proof (intro conjI impI)
  assume a: "\<not> f \<and> map_of cs name = Some (CTree a' cs' f')"
  obtain h1 n where nc: "node_child h a cs name = (h1, n)" by (cases "node_child h a cs name")
  from a have "\<forall>n'. map_of cs name \<noteq> Some (CNode n')" by simp
  from node_child_new [OF nc this] obtain b where
    b: "prefix h h1" "n = \<lparr>n_layers = b, n_values = [], n_frozen = False\<rparr>" "length h \<le> b"
       "h1 ! b \<noteq> []" "h1 ! b = (if h ! a = [] then [''base''] else h ! a)"
    by blast
  then have "set_value h1 n v layer src
     = Inr \<lparr>n_layers = b, n_values = [(if truthy layer then the layer else last (h1 ! b), (src, v))],
            n_frozen = False\<rparr>"
    by (simp add: set_value_def)
  with a nc b show "\<exists>h1 b. set_with_metadata h (CTree a cs f) name (Scalar v) layer src
                 = Inr (h1, CTree a (AList.update name
                     (CNode \<lparr>n_layers = b,
                             n_values = [(if truthy layer then the layer else last (h1 ! b), (src, v))],
                             n_frozen = False\<rparr>) cs) f)
              \<and> prefix h h1 \<and> length h \<le> b
              \<and> h1 ! b = (if h ! a = [] then [''base''] else h ! a)"
    by (intro exI [of _ h1] exI [of _ b]) simp
next
  assume a: "\<not> f \<and> map_of cs name = Some (CNode n)"
  obtain h1 c where tc: "tree_child h a cs name = (h1, c)" by (cases "tree_child h a cs name")
  from a have "\<forall>a' cs' f'. map_of cs name \<noteq> Some (CTree a' cs' f')" by simp
  from tree_child_new [OF tc this] obtain b where
    b: "prefix h h1" "c = CTree b [] False" "length h \<le> b" "b < length h1"
       "h1 ! b \<noteq> []" "h1 ! b = (if h ! a = [] then [''base''] else h ! a)"
    by blast
  then have "writable h1 (CTree b [] False)"
    by (simp add: writable_def refs_ok_def)
  from write_total(2) [OF this] obtain h2 c' where
    r: "read_dict h1 (CTree b [] False) d layer src = Inr (h2, c')" by blast
  with a tc b show "\<exists>h1 b h2 c'. prefix h h1 \<and> length h \<le> b
              \<and> h1 ! b = (if h ! a = [] then [''base''] else h ! a)
              \<and> read_dict h1 (CTree b [] False) d layer src = Inr (h2, c')
              \<and> set_with_metadata h (CTree a cs f) name (Dict d) layer src
                 = Inr (h2, CTree a (AList.update name c' cs) f)"
    by (intro exI [of _ h1] exI [of _ b] exI [of _ h2] exI [of _ c']) simp
qed

theorem assignment_replaces_child_witness:
  "set_with_metadata [[''base'']]
      (CTree 0 [(''x'', CTree 0 [(''y'', CTree 0 [] False)] False)] False)
      ''x'' (Scalar (PyInt 3)) None None
     = Inr ([[''base''], [''base'']],
            CTree 0 [(''x'', CNode \<lparr>n_layers = 1, n_values = [(''base'', (None, PyInt 3))],
                                     n_frozen = False\<rparr>)] False)
   \<and> set_with_metadata [[''base'']]
      (CTree 0 [(''x'', CNode \<lparr>n_layers = 0, n_values = [(''base'', (None, PyInt 1))],
                               n_frozen = False\<rparr>)] False)
      ''x'' (Dict [(''y'', Scalar (PyInt 3))]) None None
     = Inr ([[''base''], [''base''], [''base'']],
            CTree 0 [(''x'', CTree 1 [(''y'', CNode \<lparr>n_layers = 2,
                                                      n_values = [(''base'', (None, PyInt 3))],
                                                      n_frozen = False\<rparr>)] False)] False)"
  using assignment_replaces_child [where f = False and name = "''x''" and h = "[[''base'']]"
      and a = 0 and cs = "[(''x'', CTree 0 [(''y'', CTree 0 [] False)] False)]"
      and a' = 0 and cs' = "[(''y'', CTree 0 [] False)]" and f' = False
      and v = "PyInt 3" and layer = None and src = None]
    assignment_replaces_child [where f = False and name = "''x''" and h = "[[''base'']]"
      and a = 0
      and cs = "[(''x'', CNode \<lparr>n_layers = 0, n_values = [(''base'', (None, PyInt 1))],
                               n_frozen = False\<rparr>)]"
      and n = "\<lparr>n_layers = 0, n_values = [(''base'', (None, PyInt 1))], n_frozen = False\<rparr>"
      and d = "[(''y'', Scalar (PyInt 3))]" and layer = None and src = None]
  by (simp add: node_child_def tree_child_def new_tree_def list_copy_def alloc_def
      ConfigNode_init_def set_value_def truthy_def)

subsection \<open>Freezing\<close>





section \<open>Properties of the event framework\<close>

lemma emit_buckets_empty: "concat ch = [] \<Longrightarrow> emit_buckets ch = ([], None)"
  by (induction ch) auto

lemma channel_lookup_map_of:
  "channel_lookup m name = (m1, ch) \<Longrightarrow>
     map_of (event_types m1) name = Some ch \<and> clock m1 = clock m \<and>
     (\<forall>name'. name' \<noteq> name \<longrightarrow> map_of (event_types m1) name' = map_of (event_types m) name') \<and>
     ch = (case map_of (event_types m) name of None \<Rightarrow> new_channel | Some c \<Rightarrow> c)"
  by (auto simp: channel_lookup_def map_add_def split: option.splits)

text \<open>
  C8. On a manager that was set up with a clock, the emitter obtained for a name whose
  channel has no listeners (or does not exist yet) emits without raising: no listener is
  called, an event with a \<open>time\<close> attribute is stamped with the clock's time, and
  \<open>list_events()\<close> contains the name afterwards.
\<close>

theorem emit_without_listeners:
  "(\<forall>ch. map_of (event_types m) name = Some ch \<longrightarrow> concat ch = []) \<longrightarrow>
     call_emitter (get_emitter (manager_setup m t) name) name ev
       = Inr (if ev_time ev \<noteq> None then ev\<lparr>ev_time := Some (Some t)\<rparr> else ev, [], None)
     \<and> name \<in> set (list_events (get_emitter (manager_setup m t) name))"
proof
  assume a: "\<forall>ch. map_of (event_types m) name = Some ch \<longrightarrow> concat ch = []"
  obtain m1 ch where cl: "channel_lookup (manager_setup m t) name = (m1, ch)"
    by (cases "channel_lookup (manager_setup m t) name")
  from channel_lookup_map_of [OF cl]
  have m1: "map_of (event_types m1) name = Some ch" "clock m1 = Some t"
    and ch: "ch = (case map_of (event_types m) name of None \<Rightarrow> new_channel | Some c \<Rightarrow> c)"
    by (auto simp: manager_setup_def)
  from ch a have "concat ch = []" by (auto simp: new_channel_def split: option.splits)
  then have "emit_buckets ch = ([], None)" by (rule emit_buckets_empty)
  with m1 have "call_emitter m1 name ev
       = Inr (if ev_time ev \<noteq> None then ev\<lparr>ev_time := Some (Some t)\<rparr> else ev, [], None)"
    by (simp add: call_emitter_def emit_def)
  moreover from m1(1) have "name \<in> set (list_events m1)"
    by (auto simp: list_events_def dest: map_of_SomeD intro: rev_image_eqI)
  ultimately show "call_emitter (get_emitter (manager_setup m t) name) name ev
       = Inr (if ev_time ev \<noteq> None then ev\<lparr>ev_time := Some (Some t)\<rparr> else ev, [], None)
     \<and> name \<in> set (list_events (get_emitter (manager_setup m t) name))"
    using cl by (simp add: get_emitter_def)
qed

theorem emit_without_listeners_witness:
  "call_emitter (get_emitter (manager_setup EventManager_init 7) ''time_step'') ''time_step''
      (Event_init [1, 2] [])
     = Inr (\<lparr>ev_index = [1, 2], ev_user_data = [], ev_time = Some (Some 7)\<rparr>, [], None)
   \<and> list_events (get_emitter (manager_setup EventManager_init 7) ''time_step'') = [''time_step'']"
  using emit_without_listeners [of EventManager_init "''time_step''" 7 "Event_init [1, 2] []"]
  by (simp add: EventManager_init_def Event_init_def manager_setup_def get_emitter_def
      channel_lookup_def list_events_def)

text \<open>
  C10, amended. On a channel of ten buckets (a new one, or the existing one),
  \<open>register_listener\<close> appends the listener to bucket \<open>priority\<close> for a priority from 0 to
  9 and to bucket \<open>10 + priority\<close> for a priority from -10 to -1, without error; for a
  priority of 10 or more and for a priority below -10 it raises \<open>IndexError\<close>.
\<close>

theorem register_listener_bucket:
  "(\<forall>c. map_of (event_types m) name = Some c \<longrightarrow> length c = 10) \<and>
   ch = (case map_of (event_types m) name of None \<Rightarrow> new_channel | Some c \<Rightarrow> c) \<longrightarrow>
     (0 \<le> p \<and> p < 10 \<longrightarrow>
        (\<exists>m'. register_listener m name l p = Inr m' \<and>
              map_of (event_types m') name = Some (ch[nat p := ch ! nat p @ [l]])))
   \<and> (- 10 \<le> p \<and> p < 0 \<longrightarrow>
        (\<exists>m'. register_listener m name l p = Inr m' \<and>
              map_of (event_types m') name = Some (ch[nat (10 + p) := ch ! nat (10 + p) @ [l]])))
   \<and> (10 \<le> p \<or> p < - 10 \<longrightarrow> register_listener m name l p = Inl IndexError)"
proof
  assume a: "(\<forall>c. map_of (event_types m) name = Some c \<longrightarrow> length c = 10) \<and>
   ch = (case map_of (event_types m) name of None \<Rightarrow> new_channel | Some c \<Rightarrow> c)"
  obtain m1 ch1 where cl: "channel_lookup m name = (m1, ch1)" by (cases "channel_lookup m name")
  from channel_lookup_map_of [OF cl] a have ch1: "ch1 = ch" by simp
  from a have len: "length ch = 10" by (auto simp: new_channel_def split: option.splits)
  show "(0 \<le> p \<and> p < 10 \<longrightarrow>
        (\<exists>m'. register_listener m name l p = Inr m' \<and>
              map_of (event_types m') name = Some (ch[nat p := ch ! nat p @ [l]])))
   \<and> (- 10 \<le> p \<and> p < 0 \<longrightarrow>
        (\<exists>m'. register_listener m name l p = Inr m' \<and>
              map_of (event_types m') name = Some (ch[nat (10 + p) := ch ! nat (10 + p) @ [l]])))
   \<and> (10 \<le> p \<or> p < - 10 \<longrightarrow> register_listener m name l p = Inl IndexError)"
    using cl ch1 len
    by (auto simp: register_listener_def py_index_def update_conv')
qed


theorem register_listener_bucket_witness:
  "register_listener EventManager_init ''e'' \<lparr>l_name = ''f'', l_id = 1, l_raises = None\<rparr> 3
     = Inr \<lparr>event_types = [(''e'', [[], [], [], [\<lparr>l_name = ''f'', l_id = 1, l_raises = None\<rparr>],
                                      [], [], [], [], [], []])],
            clock = None\<rparr>
   \<and> register_listener EventManager_init ''e'' \<lparr>l_name = ''f'', l_id = 1, l_raises = None\<rparr> (- 1)
     = Inr \<lparr>event_types = [(''e'', [[], [], [], [], [], [], [], [], [],
                                      [\<lparr>l_name = ''f'', l_id = 1, l_raises = None\<rparr>]])],
            clock = None\<rparr>
   \<and> register_listener EventManager_init ''e'' \<lparr>l_name = ''f'', l_id = 1, l_raises = None\<rparr> 10
     = Inl IndexError"
  using register_listener_bucket [of EventManager_init "''e''" new_channel 3
      "\<lparr>l_name = ''f'', l_id = 1, l_raises = None\<rparr>"]
    register_listener_bucket [of EventManager_init "''e''" new_channel "- 1"
      "\<lparr>l_name = ''f'', l_id = 1, l_raises = None\<rparr>"]
    register_listener_bucket [of EventManager_init "''e''" new_channel 10
      "\<lparr>l_name = ''f'', l_id = 1, l_raises = None\<rparr>"]
  by (simp add: EventManager_init_def new_channel_def register_listener_def channel_lookup_def
      py_index_def numeral_eq_Suc)

text \<open>
  C10, as stated, says that a negative priority never fails. Priority -11 is out of range
  for a list of ten buckets.
\<close>

theorem register_listener_negative_counterexample:
  "register_listener EventManager_init ''e'' \<lparr>l_name = ''f'', l_id = 1, l_raises = None\<rparr> (- 11)
     = Inl IndexError"
  by (simp add: EventManager_init_def new_channel_def register_listener_def channel_lookup_def
      py_index_def)

subsection \<open>The order of invocation\<close>




















subsection \<open>Reading back what \<open>read_dict\<close> wrote\<close>

lemma child_at_map_of:
  "child_at cs k ks = (case map_of cs k of None \<Rightarrow> None | Some c \<Rightarrow> object_at c ks)"
  by (induction cs) auto

lemma object_at_refs:
  "object_at t p = Some c \<Longrightarrow> set (layer_refs c) \<subseteq> set (layer_refs t)"
  "child_at cs k ks = Some c \<Longrightarrow> set (layer_refs c) \<subseteq> set (layer_refs_children cs)"
proof (induction t p and cs k ks rule: object_at_child_at.induct)
  case (1 c)
  then show ?case by simp
next
  case (2 n k ks)
  then show ?case by simp
next
  case (3 a cs f k ks)
  then show ?case by auto
next
  case (4 k ks)
  then show ?case by simp
next
  case (5 k' c cs k ks)
  then show ?case by (auto split: if_splits)
qed

lemma read_path_node:
  "is_tree t \<Longrightarrow> p \<noteq> [] \<Longrightarrow> object_at t p = Some (CNode n) \<Longrightarrow>
     read_path h t p layer = (case get_value h n layer of Inl e \<Rightarrow> Inl e | Inr v \<Rightarrow> Inr (Value v))"
proof (induction h t p layer rule: read_path.induct)
  case (1 h t layer)
  then show ?case by simp
next
  case (2 h t k layer)
  then obtain a cs f where t: "t = CTree a cs f" by (cases t) auto
  with 2 have "map_of cs k = Some (CNode n)" by (simp add: child_at_map_of split: option.splits)
  with t show ?case by (simp split: sum.splits)
next
  case (3 h t k k' ks layer)
  then obtain a cs f where t: "t = CTree a cs f" by (cases t) auto
  with 3 obtain c where c: "map_of cs k = Some c" "object_at c (k' # ks) = Some (CNode n)"
    by (auto simp: child_at_map_of split: option.splits)
  then obtain a' cs' f' where c': "c = CTree a' cs' f'" by (cases c) auto
  with t c have g: "get_from_layer h t k None = Inr (Subtree c, h, t)" by simp
  from "3.IH" [OF g refl refl refl] c c' have
    "read_path h c (k' # ks) layer = (case get_value h n layer of Inl e \<Rightarrow> Inl e | Inr v \<Rightarrow> Inr (Value v))"
    by simp
  with g show ?case by simp
qed


lemma frame_set:
  "set_with_metadata h (CTree a cs f) name v layer src = Inr (h', t') \<Longrightarrow>
     \<exists>cs'. t' = CTree a cs' f \<and> (\<forall>k. k \<noteq> name \<longrightarrow> map_of cs' k = map_of cs k)"
  by (cases v) (auto simp: update_conv' split: if_splits prod.splits sum.splits)

lemma frame_read:
  "read_dict h (CTree a cs f) d layer src = Inr (h', t') \<Longrightarrow>
     \<exists>cs'. t' = CTree a cs' f \<and> (\<forall>k. k \<notin> fst ` set d \<longrightarrow> map_of cs' k = map_of cs k)"
proof (induction d arbitrary: h cs)
  case Nil
  then show ?case by auto
next
  case (Cons kv d)
  obtain k v where kv: "kv = (k, v)" by (cases kv)
  with Cons.prems obtain h1 t1 where
    s: "set_with_metadata h (CTree a cs f) k v layer src = Inr (h1, t1)"
    and r: "read_dict h1 t1 d layer src = Inr (h', t')"
    by (auto split: sum.splits)
  from frame_set [OF s] obtain cs1 where
    t1: "t1 = CTree a cs1 f" "\<forall>k'. k' \<noteq> k \<longrightarrow> map_of cs1 k' = map_of cs k'" by blast
  from Cons.IH [OF r [unfolded t1(1)]] obtain cs' where
    "t' = CTree a cs' f" "\<forall>k. k \<notin> fst ` set d \<longrightarrow> map_of cs' k = map_of cs1 k" by blast
  with t1 kv show ?case by auto
qed

lemma get_value_with_source_ext:
  "prefix h h' \<Longrightarrow> n_layers n < length h \<Longrightarrow>
     get_value_with_source h' n layer = get_value_with_source h n layer"
  by (simp add: get_value_with_source_def heap_ext_nth)

lemma stored_leaf_ext:
  assumes "stored_leaf h t p layer src v" "prefix h h'" "refs_ok h (layer_refs t)"
  shows "stored_leaf h' t p layer src v"
proof -
  from assms(1) obtain n where n: "object_at t p = Some (CNode n)"
    "get_value_with_source h n layer = Inr (src, v)"
    by (auto simp: stored_leaf_def split: option.splits config.splits)
  from object_at_refs(1) [OF n(1)] assms(3) have "n_layers n < length h"
    by (auto simp: refs_ok_def list_all_iff)
  from get_value_with_source_ext [OF assms(2) this] n show ?thesis
    by (simp add: stored_leaf_def)
qed

lemma scan_layers_last:
  "xs \<noteq> [] \<Longrightarrow> map_of vs (last xs) = Some p \<Longrightarrow> scan_layers vs (rev xs) = Inr p"
  by (cases xs rule: rev_cases) auto

lemma set_value_stored:
  "set_value h n v layer src = Inr n' \<Longrightarrow>
     get_value_with_source h n' layer = Inr (src, v) \<and> n_layers n' = n_layers n"
  by (auto simp: set_value_def get_value_with_source_def update_conv' scan_layers_last
      split: if_splits)

lemma stored_leaf_child:
  "map_of cs k = Some c \<Longrightarrow>
     stored_leaf h (CTree a cs f) (k # p) layer src v = stored_leaf h c p layer src v"
  by (simp add: stored_leaf_def child_at_map_of)

lemma read_dict_stores:
  "writable h t \<Longrightarrow> distinct_keys_of v \<Longrightarrow> set_with_metadata h t name v layer src = Inr (h', t') \<Longrightarrow>
     (p, x) \<in> set (leaves_of v) \<Longrightarrow> stored_leaf h' t' (name # p) layer src x"
  "writable h t \<Longrightarrow> distinct_keys d \<Longrightarrow> read_dict h t d layer src = Inr (h', t') \<Longrightarrow>
     (p, x) \<in> set (leaves d) \<Longrightarrow> stored_leaf h' t' p layer src x"
proof (induction h t name v layer src and h t d layer src arbitrary: h' t' p x and h' t' p x
    rule: set_with_metadata_read_dict.induct)
  case (1 h n name v layer src)
  then show ?case by simp
next
  case (2 h a cs f name d layer src)
  obtain h1 child where tc: "tree_child h a cs name = (h1, child)" by (cases "tree_child h a cs name")
  from "2.prems"(1) have nf: "\<not> f" by (simp add: writable_CTree)
  from tree_child_writable [OF "2.prems"(1) tc] have w1: "writable h1 child" by simp
  from "2.prems"(3) nf tc obtain child' where
    r: "read_dict h1 child d layer src = Inr (h', child')"
    and t': "t' = CTree a (AList.update name child' cs) f"
    by (auto split: sum.splits)
  from "2.prems" have "stored_leaf h' child' p layer src x"
    by (intro "2.IH" [OF nf tc [symmetric] refl w1 _ r]) auto
  moreover have "map_of (AList.update name child' cs) name = Some child'"
    by (simp add: update_conv')
  ultimately show ?case unfolding t' by (simp add: stored_leaf_child)
next
  case (3 h a cs f name v layer src)
  obtain h1 n where nc: "node_child h a cs name = (h1, n)" by (cases "node_child h a cs name")
  from "3.prems"(1) have nf: "\<not> f" by (simp add: writable_CTree)
  from "3.prems"(3) nf nc obtain n' where
    sv: "set_value h1 n v layer src = Inr n'" and h': "h' = h1"
    and t': "t' = CTree a (AList.update name (CNode n') cs) f"
    by (auto split: sum.splits)
  from set_value_stored [OF sv] "3.prems"(4) show ?case
    unfolding t' h' by (simp add: stored_leaf_def child_at_map_of update_conv')
next
  case (4 h t layer src)
  then show ?case by simp
next
  case (5 h t k v d layer src)
  from "5.prems"(3) obtain h1 t1 where
    s: "set_with_metadata h t k v layer src = Inr (h1, t1)"
    and r: "read_dict h1 t1 d layer src = Inr (h', t')"
    by (auto split: sum.splits)
  from write_total(1) [OF "5.prems"(1), of k v layer src] s have w1: "writable h1 t1" by auto
  from write_total(2) [OF w1, of d layer src] r have p1: "prefix h1 h'" by auto
  from "5.prems"(2) have dk: "k \<notin> fst ` set d" "distinct_keys_of v" "distinct_keys d" by auto
  from "5.prems"(4) consider
    (here) q where "p = k # q" "(q, x) \<in> set (leaves_of v)" | (later) "(p, x) \<in> set (leaves d)"
    by auto
  then show ?case
  proof cases
    case here
    from "5.IH"(1) [OF "5.prems"(1) dk(2) s here(2)] have st: "stored_leaf h1 t1 (k # q) layer src x" .
    from w1 obtain a cs f where t1: "t1 = CTree a cs f" by (cases t1) (auto simp: writable_def)
    from frame_read [OF r [unfolded t1]] dk(1) obtain cs' where
      t': "t' = CTree a cs' f" "map_of cs' k = map_of cs k" by blast
    from w1 have "refs_ok h1 (layer_refs t1)" by (simp add: writable_def)
    from stored_leaf_ext [OF st p1 this] have "stored_leaf h' t1 (k # q) layer src x" .
    with t1 t' here(1) show ?thesis by (simp add: stored_leaf_def child_at_map_of)
  next
    case later
    from "5.IH"(2) [OF s refl w1 dk(3) r later] show ?thesis .
  qed
qed

text \<open>
  C7, amended. On a tree in which nothing is frozen and every list of layers is a non-empty
  list object of the store, \<open>read_dict(mapping, layer, source)\<close> of a nested mapping with
  scalar leaves succeeds, and afterwards every leaf path, read at the same layer (the last
  name with \<open>get_from_layer(name, layer)\<close>; without a layer this is the plain read), gives
  the original scalar, and the node at the path reports the passed source with it from
  \<open>get_value_with_source(layer)\<close>.
\<close>

theorem read_dict_round_trip:
  "writable h t \<and> distinct_keys d \<longrightarrow>
     (\<exists>h' t'. read_dict h t d layer src = Inr (h', t') \<and>
        (\<forall>(p, v) \<in> set (leaves d).
            read_path h' t' p layer = Inr (Value v) \<and>
            (\<exists>n. object_at t' p = Some (CNode n) \<and> get_value_with_source h' n layer = Inr (src, v))))"
proof
  assume a: "writable h t \<and> distinct_keys d"
  with write_total(2) [of h t d layer src] obtain h' t' where
    r: "read_dict h t d layer src = Inr (h', t')" and w: "writable h' t'" by blast
  have "read_path h' t' p layer = Inr (Value v) \<and>
        (\<exists>n. object_at t' p = Some (CNode n) \<and> get_value_with_source h' n layer = Inr (src, v))"
    if "(p, v) \<in> set (leaves d)" for p v
  proof -
    from a r that have "stored_leaf h' t' p layer src v" by (intro read_dict_stores(2)) auto
    then obtain n where n: "object_at t' p = Some (CNode n)"
      "get_value_with_source h' n layer = Inr (src, v)"
      by (auto simp: stored_leaf_def split: option.splits config.splits)
    from w have tr: "is_tree t'" by (simp add: writable_def)
    with n(1) have "p \<noteq> []" by (cases t') auto
    from read_path_node [OF tr this n(1)] n(2) have "read_path h' t' p layer = Inr (Value v)"
      by (simp add: get_value_def)
    with n show ?thesis by blast
  qed
  with r show "\<exists>h' t'. read_dict h t d layer src = Inr (h', t') \<and>
        (\<forall>(p, v) \<in> set (leaves d).
            read_path h' t' p layer = Inr (Value v) \<and>
            (\<exists>n. object_at t' p = Some (CNode n) \<and> get_value_with_source h' n layer = Inr (src, v)))"
    by blast
qed

theorem read_dict_round_trip_witness:
  "read_dict [[''base'']] (CTree 0 [] False)
      [(''a'', Dict [(''b'', Scalar (PyInt 1)), (''c'', Scalar (PyStr ''x''))]),
       (''d'', Scalar (PyBool True))] None (Some ''file'')
     = Inr ([[''base''], [''base''], [''base''], [''base''], [''base'']],
            CTree 0
              [(''a'', CTree 1
                  [(''b'', CNode \<lparr>n_layers = 2, n_values = [(''base'', (Some ''file'', PyInt 1))],
                                    n_frozen = False\<rparr>),
                   (''c'', CNode \<lparr>n_layers = 3, n_values = [(''base'', (Some ''file'', PyStr ''x''))],
                                    n_frozen = False\<rparr>)] False),
               (''d'', CNode \<lparr>n_layers = 4, n_values = [(''base'', (Some ''file'', PyBool True))],
                                n_frozen = False\<rparr>)] False)
   \<and> read_path [[''base''], [''base''], [''base''], [''base''], [''base'']]
        (CTree 0
              [(''a'', CTree 1
                  [(''b'', CNode \<lparr>n_layers = 2, n_values = [(''base'', (Some ''file'', PyInt 1))],
                                    n_frozen = False\<rparr>),
                   (''c'', CNode \<lparr>n_layers = 3, n_values = [(''base'', (Some ''file'', PyStr ''x''))],
                                    n_frozen = False\<rparr>)] False),
               (''d'', CNode \<lparr>n_layers = 4, n_values = [(''base'', (Some ''file'', PyBool True))],
                                n_frozen = False\<rparr>)] False)
        [''a'', ''c''] None = Inr (Value (PyStr ''x''))"
  using read_dict_round_trip [of "[[''base'']]" "CTree 0 [] False"
      "[(''a'', Dict [(''b'', Scalar (PyInt 1)), (''c'', Scalar (PyStr ''x''))]),
        (''d'', Scalar (PyBool True))]" None "Some ''file''"]
  by (simp add: writable_def refs_ok_def tree_child_def node_child_def list_copy_def alloc_def
      new_tree_def ConfigNode_init_def set_value_def truthy_def get_value_def
      get_value_with_source_def)

text \<open>
  C7, as stated, reads the leaf paths back without saying at which layer. A read without a
  layer returns the value of the last declared layer that has one, which need not be the
  layer written: here \<open>x\<close> is 5 at layer \<open>override\<close>, \<open>{x: 1}\<close> is read into layer \<open>base\<close>,
  and the plain read of \<open>x\<close> still gives 5.
\<close>

theorem shadowed_read_counterexample: "shadowed_read None = Inr (Value (PyInt 5))"
  by (simp add: shadowed_read_def shadowed_tree_def alloc_def ConfigTree_init_def new_tree_def
      node_child_def list_copy_def ConfigNode_init_def set_value_def truthy_def get_value_def
      get_value_with_source_def)

subsection \<open>Dropping a layer\<close>

lemma drop_heap_length [simp]: "length (drop_heap h as l) = length h"
  by (simp add: drop_heap_def)

lemma drop_heap_nth:
  "i < length h \<Longrightarrow> drop_heap h as l ! i = (if i \<in> set as then remove1 l (h ! i) else h ! i)"
  by (simp add: drop_heap_def)

lemma drop_heap_single:
  "a < length h \<Longrightarrow> h[a := remove1 l (h ! a)] = drop_heap h [a] l"
  by (rule nth_equalityI) (auto simp: drop_heap_nth nth_list_update)

lemma drop_heap_snoc:
  "a < length h \<Longrightarrow> a \<notin> set as \<Longrightarrow>
     (drop_heap h as l)[a := remove1 l (drop_heap h as l ! a)] = drop_heap h (a # as) l"
  by (rule nth_equalityI) (auto simp: drop_heap_nth nth_list_update)

lemma drop_heap_append:
  "set as \<inter> set bs = {} \<Longrightarrow> drop_heap (drop_heap h as l) bs l = drop_heap h (as @ bs) l"
  by (rule nth_equalityI) (auto simp: drop_heap_nth)

text \<open>
  Where \<open>drop_layer\<close> does what the specification says: when no list object is shared
  between the objects of the tree, every list is in the store and names the layer, and every
  node stores a value for the layer, the call returns the tree without the entries and the
  store without the first occurrence of the name in each of the tree's lists.
\<close>

lemma drop_layer_refines:
  "distinct (layer_refs t) \<Longrightarrow> \<forall>a \<in> set (layer_refs t). a < length h \<and> l \<in> set (h ! a) \<Longrightarrow>
     all_nodes_store l t \<Longrightarrow>
     drop_layer h t l = Inr (drop_heap h (layer_refs t) l, strip_layer l t)"
  "distinct (layer_refs_children cs) \<Longrightarrow>
     \<forall>a \<in> set (layer_refs_children cs). a < length h \<and> l \<in> set (h ! a) \<Longrightarrow>
     all_nodes_store_children l cs \<Longrightarrow>
     drop_layer_children h cs l
       = Inr (drop_heap h (layer_refs_children cs) l, strip_layer_children l cs)"
proof (induction h t l and h cs l rule: drop_layer_drop_layer_children.induct)
  case (1 h n l)
  then show ?case
    by (auto simp: node_drop_layer_def node_reset_layer_def list_remove_def drop_heap_single)
next
  case (2 h a cs f l)
  from "2.prems" have c: "drop_layer_children h cs l
       = Inr (drop_heap h (layer_refs_children cs) l, strip_layer_children l cs)"
    by (intro "2.IH") auto
  from "2.prems" have a: "a < length h" "a \<notin> set (layer_refs_children cs)" "l \<in> set (h ! a)"
    by auto
  then have "l \<in> set (drop_heap h (layer_refs_children cs) l ! a)"
    by (simp add: drop_heap_nth)
  with c a show ?case
    by (simp add: list_remove_def drop_heap_snoc)
next
  case (3 h l)
  show ?case by (simp add: drop_heap_def map_nth)
next
  case (4 h k c cs l)
  from "4.prems" have c: "drop_layer h c l = Inr (drop_heap h (layer_refs c) l, strip_layer l c)"
    by (intro "4.IH"(1)) auto
  from "4.prems"(1) have dj: "set (layer_refs c) \<inter> set (layer_refs_children cs) = {}" by auto
  have "drop_layer_children (drop_heap h (layer_refs c) l) cs l
      = Inr (drop_heap (drop_heap h (layer_refs c) l) (layer_refs_children cs) l,
             strip_layer_children l cs)"
  proof (rule "4.IH"(2) [OF c refl])
    show "distinct (layer_refs_children cs)" using "4.prems"(1) by simp
    show "\<forall>a \<in> set (layer_refs_children cs).
        a < length (drop_heap h (layer_refs c) l) \<and> l \<in> set (drop_heap h (layer_refs c) l ! a)"
      using "4.prems"(2) dj by (auto simp: drop_heap_nth)
    show "all_nodes_store_children l cs" using "4.prems"(3) by simp
  qed
  with c dj show ?case by (simp add: drop_heap_append)
qed

text \<open>
  C5. The code does not do what the claim says. On the first tree, where every node has a
  value in both layers, the first \<open>drop_layer("clinical")\<close> succeeds, leaves \<open>['base']\<close> as
  every declared sequence and only the \<open>base\<close> entries, and the reads of \<open>x\<close> and \<open>grp.y\<close>
  then give the \<open>base\<close> values; the second \<open>drop_layer("clinical")\<close> raises \<open>KeyError\<close>
  (NotFound), not \<open>ValueError\<close> (LayerNotDeclared): the children are visited before the
  tree's own \<open>_layers.remove(layer)\<close>, and the first node runs \<open>del self._values[layer]\<close>
  on an entry that is gone. On the second tree, where \<open>y\<close> has no \<open>clinical\<close> value, the
  same unguarded \<open>del\<close> makes already the first \<open>drop_layer("clinical")\<close> raise \<open>KeyError\<close>.
\<close>

theorem drop_layer_raises_key_error:
  "clinical_dropped
     = Inr ([[''base''], [''base''], [''base''], [''base'']],
            CTree 0
              [(''x'', CNode \<lparr>n_layers = 1, n_values = [(''base'', (Some ''defaults'', PyInt 1))], n_frozen = False\<rparr>),
               (''grp'', CTree 2
                  [(''y'', CNode \<lparr>n_layers = 3, n_values = [(''base'', (Some ''defaults'', PyInt 2))], n_frozen = False\<rparr>)] False)] False)
   \<and> clinical_dropped_read [''x''] = Inr (Value (PyInt 1))
   \<and> clinical_dropped_read [''grp'', ''y''] = Inr (Value (PyInt 2))
   \<and> clinical_dropped_twice = Inl KeyError
   \<and> partial_layer_dropped = Inl KeyError"
  by (simp add: clinical_dropped_twice_def clinical_dropped_read_def clinical_dropped_def
      clinical_tree_def partial_layer_dropped_def partial_layer_tree_def alloc_def
      ConfigTree_init_def new_tree_def tree_child_def node_child_def list_copy_def
      ConfigNode_init_def set_value_def truthy_def node_drop_layer_def node_reset_layer_def
      list_remove_def get_value_def get_value_with_source_def)

text \<open>
  A second defect: a tree created by a read shares the list object of its parent
  (\<open>ConfigTree(layers=self._layers)\<close>, where \<open>set_with_metadata\<close> copies the list). On the
  third tree the child removes the name from the shared list and the parent's own removal
  then raises \<open>ValueError\<close>, in the first \<open>drop_layer\<close>.
\<close>

lemma drop_layer_shared_list_fails: "shared_layers_dropped = Inl ValueError"
  by (simp add: shared_layers_dropped_def shared_layers_tree_def alloc_def
      ConfigTree_init_def new_tree_def tree_child_def node_child_def list_copy_def
      ConfigNode_init_def set_value_def truthy_def node_drop_layer_def node_reset_layer_def
      list_remove_def)

end
